theory Spec2Isabelle
  imports Complex_Main
begin

section \<open>Data model\<close>

text \<open>
  A \<^verbatim>\<open>Prediction\<close> is \<^verbatim>\<open>{ className: string, probability: number }\<close>.
  A JavaScript number that is neither NaN nor infinite denotes a real number, and the
  comparison of two such numbers is the comparison of the reals they denote, so
  \<open>probability\<close> is a \<open>real\<close>. The one arithmetic operation of the program, the
  product in \<^verbatim>\<open>PredictionBar\<close>, rounds its result to a double; that rounding is a
  parameter of the model there.
\<close>

record prediction =
  className :: string
  probability :: real

text \<open>
  The model handle is typed \<^verbatim>\<open>any\<close>; the program calls \<^verbatim>\<open>getClassLabels()\<close> and
  \<^verbatim>\<open>predict(video, true)\<close> on it. The call \<^verbatim>\<open>getClassLabels()\<close> sits inside the
  \<^verbatim>\<open>try\<close> block of \<^verbatim>\<open>loadModel\<close>, so its throwing is a case of the model:
  \<open>None\<close>. The outcome of \<^verbatim>\<open>predict\<close> is supplied when the awaited promise settles.
\<close>

record model =
  getClassLabels :: "string list option"

text \<open>
  A \<^verbatim>\<open>MediaStream\<close> is the list of its tracks (\<^verbatim>\<open>getTracks()\<close>); a track is
  identified by a number. The video element carries the two properties the program
  touches.
\<close>

type_synonym track = nat
type_synonym mediaStream = "track list"

record video =
  srcObject :: "mediaStream option"
  readyState :: nat

text \<open>How the three awaited promises can settle.\<close>

datatype loadResult = LoadResolves model | LoadRejects
datatype mediaResult = StreamGranted mediaStream | StreamDenied
datatype predictResult = PredictResolves "prediction list" | PredictRejects

text \<open>Where the component is in its life. The poll effect remembers the value of
  \<^verbatim>\<open>webcamActive\<close> it last ran with (its dependency).\<close>

datatype lifecycle = NotMounted | Mounted bool | Unmounted

text \<open>
  \<^verbatim>\<open>videoRef\<close> is the ref of the \<^verbatim>\<open><video>\<close> element (lines 124-125), and React sets such
  a ref to null when the component is unmounted: before the cleanups of the effects run
  (React 17 and later) or after them (React 16). The source does not say which React
  runs it, so the unmount event carries the order.
\<close>

datatype refTiming = RefClearedFirst | RefClearedLast

text \<open>
  The state of the component and of the part of the host it talks to.
  \<^item> the five \<^verbatim>\<open>useState\<close> cells and the three \<^verbatim>\<open>useRef\<close> cells, under their names; a
    state cell holds the value last given to its setter;
  \<^item> \<open>renderedWebcamActive\<close>, \<open>renderedIsStartingWebcam\<close>: the constants \<^verbatim>\<open>webcamActive\<close>
    and \<^verbatim>\<open>isStartingWebcam\<close> of the last render. The click handler of that render closes
    over them: a setter changes the cell, and the handler sees the new value only after
    the next render;
  \<^item> \<open>tmImage\<close>, \<open>tf\<close>: whether \<^verbatim>\<open>window.tmImage\<close> and \<^verbatim>\<open>window.tf\<close> are truthy;
  \<^item> \<open>rafQueue\<close>: the handles of the animation-frame callbacks that are scheduled and
    not canceled (every callback the program schedules is \<^verbatim>\<open>predictLoop\<close>);
    \<open>rafLast\<close>: the last handle the host gave out;
  \<^item> \<open>getUserMediaCalls\<close>, \<open>predictCalls\<close>: how many times the program has called
    \<^verbatim>\<open>getUserMedia\<close> and \<^verbatim>\<open>predict\<close>; \<open>stoppedTracks\<close>: the tracks that received
    \<^verbatim>\<open>stop()\<close>, in order;
  \<^item> \<open>loadPending\<close>, \<open>streamPending\<close>, \<open>metadataPending\<close>, \<open>predictPending\<close>: how many
    invocations of \<^verbatim>\<open>loadModel\<close>, \<^verbatim>\<open>startWebcam\<close> (at its first and at its second
    \<^verbatim>\<open>await\<close>) and \<^verbatim>\<open>predictLoop\<close> are suspended.
\<close>

record world =
  isLoadingModel :: bool
  isStartingWebcam :: bool
  webcamActive :: bool
  predictions :: "prediction list"
  error :: "string option"
  renderedWebcamActive :: bool
  renderedIsStartingWebcam :: bool
  videoRef :: "video option"
  modelRef :: "model option"
  requestAnimationFrameRef :: nat
  tmImage :: bool
  tf :: bool
  rafQueue :: "nat list"
  rafLast :: nat
  getUserMediaCalls :: nat
  predictCalls :: nat
  stoppedTracks :: "track list"
  loadPending :: nat
  streamPending :: nat
  metadataPending :: nat
  predictPending :: nat
  lifecycle :: lifecycle

text \<open>The initial values of the hooks (App.tsx, lines 17-25), on a host where nothing
  has been requested yet; the two flags say whether the script tags have loaded.\<close>

definition initial :: "bool \<Rightarrow> bool \<Rightarrow> world" where
  "initial has_tmImage has_tf =
     \<lparr>isLoadingModel = True, isStartingWebcam = False, webcamActive = False,
      predictions = [], error = None,
      renderedWebcamActive = False, renderedIsStartingWebcam = False,
      videoRef = None, modelRef = None, requestAnimationFrameRef = 0,
      tmImage = has_tmImage, tf = has_tf,
      rafQueue = [], rafLast = 0,
      getUserMediaCalls = 0, predictCalls = 0, stoppedTracks = [],
      loadPending = 0, streamPending = 0, metadataPending = 0, predictPending = 0,
      lifecycle = NotMounted\<rparr>"

section \<open>Host operations\<close>

text \<open>
  \<^verbatim>\<open>requestAnimationFrame\<close> returns a fresh non-zero handle and queues the callback;
  \<^verbatim>\<open>cancelAnimationFrame\<close> removes the callback with that handle, if it is still
  queued; \<^verbatim>\<open>getUserMedia\<close> starts a permission request.
\<close>

definition requestAnimationFrame :: "world \<Rightarrow> nat \<times> world" where
  "requestAnimationFrame s =
     (Suc (rafLast s), s\<lparr>rafQueue := rafQueue s @ [Suc (rafLast s)], rafLast := Suc (rafLast s)\<rparr>)"

definition cancelAnimationFrame :: "nat \<Rightarrow> world \<Rightarrow> world" where
  "cancelAnimationFrame h s = s\<lparr>rafQueue := removeAll h (rafQueue s)\<rparr>"

definition getUserMedia :: "world \<Rightarrow> world" where
  "getUserMedia s =
     s\<lparr>getUserMediaCalls := Suc (getUserMediaCalls s), streamPending := Suc (streamPending s)\<rparr>"

section \<open>Leading-class selection (App.tsx, lines 111-114)\<close>

text \<open>
  \<^verbatim>\<open>predictions.reduce((prev, current) =>
       (prev.probability > current.probability ? prev : current),
       { className: '', probability: 0 })\<close>
  \<^verbatim>\<open>reduce\<close> with an initial value is a left fold from that value.
\<close>

definition seed :: prediction where
  "seed = \<lparr>className = '''', probability = 0\<rparr>"

definition pick :: "prediction \<Rightarrow> prediction \<Rightarrow> prediction" where
  "pick prev current = (if probability prev > probability current then prev else current)"

definition topPrediction :: "prediction list \<Rightarrow> prediction" where
  "topPrediction ps = foldl pick seed ps"

text \<open>\<^verbatim>\<open>p.probability > 0.6 && p.className === topPrediction.className\<close> (line 166).
  No double lies strictly between the double written \<^verbatim>\<open>0.6\<close> and the real 0.6, so for
  a double \<open>p\<close> the comparison with the literal is the comparison with \<open>6/10\<close>.\<close>

definition isTopPrediction :: "prediction list \<Rightarrow> prediction \<Rightarrow> bool" where
  "isTopPrediction ps p \<longleftrightarrow> probability p > 6 / 10 \<and> className p = className (topPrediction ps)"

section \<open>The prediction bar (components/PredictionBar.tsx)\<close>

text \<open>The decimal digits of a natural number, most significant first.\<close>

definition digit :: "nat \<Rightarrow> char" where
  "digit d = ''0123456789'' ! d"

fun digits :: "nat \<Rightarrow> string" where
  "digits n = (if n < 10 then [digit n] else digits (n div 10) @ [digit (n mod 10)])"

declare digits.simps [simp del]

text \<open>
  Reading a text as a decimal numeral, to say what \<open>digits\<close> must produce: the value of
  a digit character is its code minus the code of 0, the value of a text is taken digit
  by digit from the left, and a numeral is a non-empty text of digit characters that
  does not start with 0 unless it is 0 itself.
\<close>

definition digitValue :: "char \<Rightarrow> nat" where
  "digitValue c = of_char c - 48"

definition decimalValue :: "string \<Rightarrow> nat" where
  "decimalValue cs = foldl (\<lambda>a c. 10 * a + digitValue c) 0 cs"

definition isNumeral :: "string \<Rightarrow> bool" where
  "isNumeral cs \<longleftrightarrow>
     cs \<noteq> [] \<and> list_all (\<lambda>c. c \<in> set ''0123456789'') cs \<and> (hd cs = CHR ''0'' \<longrightarrow> cs = ''0'')"

text \<open>
  \<^verbatim>\<open>Number.prototype.toFixed(0)\<close> (ECMAScript, Number.prototype.toFixed) on a finite
  \<open>x\<close> below \<open>10^21\<close> in magnitude: a negative \<open>x\<close> gives a minus sign and is negated;
  then \<open>n\<close> is the integer for which \<open>n - x\<close> is as close to zero as possible, the
  larger one if there are two, and the result is the decimal digits of \<open>n\<close>. From
  \<open>10^21\<close> on the result is the exponent form of \<^verbatim>\<open>ToString\<close>, which is not modelled:
  \<open>None\<close>.
\<close>

definition nearest :: "real \<Rightarrow> nat" where
  "nearest x = nat \<lfloor>x + 1 / 2\<rfloor>"

definition toFixed0 :: "real \<Rightarrow> string option" where
  "toFixed0 x =
     (if 10 ^ 21 \<le> \<bar>x\<bar> then None
      else if x < 0 then Some (CHR ''-'' # digits (nearest (- x)))
      else Some (digits (nearest x)))"

text \<open>
  \<^verbatim>\<open>const percentage = (prediction.probability * 100).toFixed(0)\<close>. The product is a
  double: \<open>fl\<close> is the rounding of the exact product to a double.
\<close>

definition percentage :: "(real \<Rightarrow> real) \<Rightarrow> prediction \<Rightarrow> string option" where
  "percentage fl p = toFixed0 (fl (probability p * 100))"

text \<open>What the bar shows: the label, the percentage text, and whether the bar is drawn
  in the leading colour (\<^verbatim>\<open>bg-blue-500\<close>) or not (\<^verbatim>\<open>bg-gray-400\<close>).\<close>

record bar =
  label :: string
  percent :: "string option"
  leading :: bool

definition PredictionBar :: "(real \<Rightarrow> real) \<Rightarrow> prediction \<Rightarrow> bool \<Rightarrow> bar" where
  "PredictionBar fl p isTop = \<lparr>label = className p, percent = percentage fl p, leading = isTop\<rparr>"

text \<open>\<^verbatim>\<open>predictions.map((p) => <PredictionBar prediction={p} isTopPrediction={...} />)\<close>
  (App.tsx, lines 162-168).\<close>

definition renderBars :: "(real \<Rightarrow> real) \<Rightarrow> prediction list \<Rightarrow> bar list" where
  "renderBars fl ps = map (\<lambda>p. PredictionBar fl p (isTopPrediction ps p)) ps"

section \<open>The orchestrator (App.tsx)\<close>

text \<open>
  An \<^verbatim>\<open>async\<close> function runs until its first \<^verbatim>\<open>await\<close>, and the rest of it runs in a
  later turn of the event loop, when the awaited promise has settled; other callbacks
  can run in between. Each such piece is one function on the state, in the order of
  the source text. A state setter writes its cell.
\<close>

subsection \<open>\<^verbatim>\<open>loadModel\<close> (lines 27-52)\<close>

definition libsMissingMessage :: string where
  "libsMissingMessage =
     ''Required AI libraries not loaded. Please check your internet connection and refresh.''"

definition modelLoadMessage :: string where
  "modelLoadMessage =
     ''Could not load the AI model. Please check your connection and try again.''"

text \<open>Up to \<^verbatim>\<open>await window.tmImage.load(modelURL, metadataURL)\<close>.\<close>

definition loadModel :: "world \<Rightarrow> world" where
  "loadModel s =
     (if \<not> tmImage s \<or> \<not> tf s
      then s\<lparr>error := Some libsMissingMessage, isLoadingModel := False\<rparr>
      else s\<lparr>loadPending := Suc (loadPending s)\<rparr>)"

text \<open>From the settled promise to the end of \<^verbatim>\<open>finally\<close>. A rejection, or an
  exception of \<^verbatim>\<open>getClassLabels()\<close>, goes to \<^verbatim>\<open>catch\<close>.\<close>

definition loadModel_resume :: "loadResult \<Rightarrow> world \<Rightarrow> world" where
  "loadModel_resume r s =
     (case r of
        LoadRejects \<Rightarrow> s\<lparr>error := Some modelLoadMessage, isLoadingModel := False\<rparr>
      | LoadResolves m \<Rightarrow>
          (case getClassLabels m of
             None \<Rightarrow> s\<lparr>modelRef := Some m, error := Some modelLoadMessage, isLoadingModel := False\<rparr>
           | Some classNames \<Rightarrow>
               s\<lparr>modelRef := Some m,
                 predictions := map (\<lambda>name. \<lparr>className = name, probability = 0\<rparr>) classNames,
                 isLoadingModel := False\<rparr>))"

subsection \<open>\<^verbatim>\<open>startWebcam\<close> (lines 54-75)\<close>

definition cameraMessage :: string where
  "cameraMessage = ''Could not access the camera. Please grant permission and try again.''"

text \<open>Up to \<^verbatim>\<open>await navigator.mediaDevices.getUserMedia(...)\<close>. The condition of
  line 55 reads the constants of the render that created the handler, not the cells.\<close>

definition startWebcam :: "world \<Rightarrow> world" where
  "startWebcam s =
     (if renderedWebcamActive s \<or> renderedIsStartingWebcam s then s
      else getUserMedia (s\<lparr>isStartingWebcam := True, error := None\<rparr>))"

text \<open>From the settled \<^verbatim>\<open>getUserMedia\<close> promise to \<^verbatim>\<open>await new Promise(...)\<close>, or to the
  end of \<^verbatim>\<open>finally\<close> when the promise rejected or the video element is not there.\<close>

definition startWebcam_stream :: "mediaResult \<Rightarrow> world \<Rightarrow> world" where
  "startWebcam_stream r s =
     (case r of
        StreamDenied \<Rightarrow> s\<lparr>error := Some cameraMessage, isStartingWebcam := False\<rparr>
      | StreamGranted stream \<Rightarrow>
          (case videoRef s of
             None \<Rightarrow> s\<lparr>isStartingWebcam := False\<rparr>
           | Some v \<Rightarrow>
               s\<lparr>videoRef := Some (v\<lparr>srcObject := Some stream\<rparr>),
                 metadataPending := Suc (metadataPending s)\<rparr>))"

text \<open>From \<^verbatim>\<open>onloadedmetadata\<close> to the end of \<^verbatim>\<open>finally\<close>.\<close>

definition startWebcam_metadata :: "world \<Rightarrow> world" where
  "startWebcam_metadata s = s\<lparr>webcamActive := True, isStartingWebcam := False\<rparr>"

subsection \<open>\<^verbatim>\<open>predictLoop\<close> (lines 77-85)\<close>

text \<open>\<^verbatim>\<open>requestAnimationFrameRef.current = requestAnimationFrame(predictLoop)\<close>
  (lines 84 and 93).\<close>

definition scheduleLoop :: "world \<Rightarrow> world" where
  "scheduleLoop s =
     (case requestAnimationFrame s of (h, s') \<Rightarrow> s'\<lparr>requestAnimationFrameRef := h\<rparr>)"

text \<open>\<^verbatim>\<open>modelRef.current && videoRef.current && videoRef.current.readyState >= 3\<close>\<close>

definition canPredict :: "world \<Rightarrow> bool" where
  "canPredict s \<longleftrightarrow>
     modelRef s \<noteq> None \<and> (case videoRef s of None \<Rightarrow> False | Some v \<Rightarrow> 3 \<le> readyState v)"

text \<open>Up to \<^verbatim>\<open>await modelRef.current.predict(videoRef.current, true)\<close> when the
  condition holds, to the end otherwise.\<close>

definition predictLoop :: "world \<Rightarrow> world" where
  "predictLoop s =
     (if canPredict s
      then s\<lparr>predictCalls := Suc (predictCalls s), predictPending := Suc (predictPending s)\<rparr>
      else scheduleLoop s)"

text \<open>From the settled \<^verbatim>\<open>predict\<close> promise to the end. There is no \<^verbatim>\<open>try\<close> around the
  \<^verbatim>\<open>await\<close>: a rejection ends the invocation there.\<close>

definition predictLoop_resume :: "predictResult \<Rightarrow> world \<Rightarrow> world" where
  "predictLoop_resume r s =
     (case r of
        PredictRejects \<Rightarrow> s
      | PredictResolves predictionResult \<Rightarrow> scheduleLoop (s\<lparr>predictions := predictionResult\<rparr>))"

subsection \<open>The effects (lines 87-109)\<close>

text \<open>The body and the cleanup of the effect on \<^verbatim>\<open>[webcamActive, predictLoop]\<close>
  (lines 91-100), and the cleanup of the last effect (lines 102-109).\<close>

definition pollEffect :: "world \<Rightarrow> world" where
  "pollEffect s = (if webcamActive s \<and> modelRef s \<noteq> None then scheduleLoop s else s)"

definition pollCleanup :: "world \<Rightarrow> world" where
  "pollCleanup s =
     (if requestAnimationFrameRef s \<noteq> 0
      then cancelAnimationFrame (requestAnimationFrameRef s) s else s)"

definition trackCleanup :: "world \<Rightarrow> world" where
  "trackCleanup s =
     (case videoRef s of
        None \<Rightarrow> s
      | Some v \<Rightarrow>
          (case srcObject v of
             None \<Rightarrow> s
           | Some stream \<Rightarrow> s\<lparr>stoppedTracks := stoppedTracks s @ stream\<rparr>))"

text \<open>On unmount the cleanups run in the order of their effects. The second one reads
  \<^verbatim>\<open>videoRef.current\<close> when it runs.\<close>

definition teardown :: "world \<Rightarrow> world" where
  "teardown s = trackCleanup (pollCleanup s)"

section \<open>The event loop\<close>

text \<open>
  What can happen, one turn of the event loop each:
  \<^item> \<open>Mount\<close>: the first render and commit attach the video element to \<^verbatim>\<open>videoRef\<close> and
    run the effects: \<^verbatim>\<open>loadModel()\<close>, then the poll effect;
  \<^item> \<open>LoadSettles\<close>, \<open>StreamSettles\<close>, \<open>LoadedMetadata\<close>, \<open>PredictSettles\<close>: an awaited
    promise settles and the suspended invocation goes on;
  \<^item> \<open>ClickStart\<close>: the handler of the button, as the last render created it;
  \<^item> \<open>VideoReadyState\<close>: the host changes \<^verbatim>\<open>readyState\<close> of the video element;
  \<^item> \<open>Commit\<close>: the component renders again with the values of the cells, and the new
    handler replaces the old one; when \<^verbatim>\<open>webcamActive\<close> differs from the value the poll
    effect last ran with, the cleanup of that effect runs and then its body;
  \<^item> \<open>Frame h\<close>: the host runs the animation-frame callback with handle \<open>h\<close>;
  \<^item> \<open>DetachRef\<close>: \<^verbatim>\<open>videoRef.current\<close> becomes null. React does this when the element
    leaves the page, which for this component is at unmount; allowing it at any time
    only adds runs;
  \<^item> \<open>Unmount\<close>: the cleanups of the effects run and \<^verbatim>\<open>videoRef.current\<close> becomes null,
    in the order the event carries.
  An event that cannot happen in a state leaves it as it is. The button is taken to be
  clickable whenever the component is mounted; its \<^verbatim>\<open>disabled\<close> attribute is not
  relied on.
\<close>

datatype event =
    Mount
  | LoadSettles loadResult
  | ClickStart
  | StreamSettles mediaResult
  | LoadedMetadata
  | VideoReadyState nat
  | Commit
  | Frame nat
  | PredictSettles predictResult
  | DetachRef
  | Unmount refTiming

definition isMounted :: "world \<Rightarrow> bool" where
  "isMounted s = (case lifecycle s of Mounted d \<Rightarrow> True | _ \<Rightarrow> False)"

fun exec :: "event \<Rightarrow> world \<Rightarrow> world" where
  "exec Mount s =
     (if lifecycle s = NotMounted
      then (let s1 = pollEffect (loadModel
                  (s\<lparr>videoRef := Some \<lparr>srcObject = None, readyState = 0\<rparr>,
                     renderedWebcamActive := webcamActive s,
                     renderedIsStartingWebcam := isStartingWebcam s\<rparr>))
            in s1\<lparr>lifecycle := Mounted (webcamActive s1)\<rparr>)
      else s)"
| "exec (LoadSettles r) s =
     (if 0 < loadPending s then loadModel_resume r (s\<lparr>loadPending := loadPending s - 1\<rparr>) else s)"
| "exec ClickStart s = (if isMounted s then startWebcam s else s)"
| "exec (StreamSettles r) s =
     (if 0 < streamPending s
      then startWebcam_stream r (s\<lparr>streamPending := streamPending s - 1\<rparr>) else s)"
| "exec LoadedMetadata s =
     (if 0 < metadataPending s
      then startWebcam_metadata (s\<lparr>metadataPending := metadataPending s - 1\<rparr>) else s)"
| "exec (VideoReadyState n) s =
     (case videoRef s of None \<Rightarrow> s | Some v \<Rightarrow> s\<lparr>videoRef := Some (v\<lparr>readyState := n\<rparr>)\<rparr>)"
| "exec Commit s =
     (case lifecycle s of
        Mounted d \<Rightarrow>
          (let s1 = s\<lparr>renderedWebcamActive := webcamActive s,
                      renderedIsStartingWebcam := isStartingWebcam s\<rparr>
           in if d \<noteq> webcamActive s
              then (pollEffect (pollCleanup s1))\<lparr>lifecycle := Mounted (webcamActive s)\<rparr>
              else s1)
      | _ \<Rightarrow> s)"
| "exec (Frame h) s =
     (if h \<in> set (rafQueue s) then predictLoop (s\<lparr>rafQueue := removeAll h (rafQueue s)\<rparr>) else s)"
| "exec (PredictSettles r) s =
     (if 0 < predictPending s
      then predictLoop_resume r (s\<lparr>predictPending := predictPending s - 1\<rparr>) else s)"
| "exec DetachRef s = s\<lparr>videoRef := None\<rparr>"
| "exec (Unmount t) s =
     (if isMounted s
      then (case t of
              RefClearedFirst \<Rightarrow> teardown (s\<lparr>videoRef := None\<rparr>)
            | RefClearedLast \<Rightarrow> (teardown s)\<lparr>videoRef := None\<rparr>)\<lparr>lifecycle := Unmounted\<rparr>
      else s)"

definition run :: "event list \<Rightarrow> world \<Rightarrow> world" where
  "run evs s = foldl (\<lambda>s e. exec e s) s evs"

text \<open>
  The state setters are modelled as writes at any time. After \<open>Unmount\<close> React drops
  such a write; the statements below about a state after \<open>Unmount\<close> are about the
  host's queue and counters, which the program changes all the same.
\<close>

section \<open>Invariants and scenarios\<close>

text \<open>Nothing has been predicted and no poll is under way.\<close>

definition idle :: "world \<Rightarrow> bool" where
  "idle s \<longleftrightarrow>
     predictions s = [] \<and> rafQueue s = [] \<and> predictPending s = 0 \<and> predictCalls s = 0"

text \<open>A library is missing, no load is awaited and no handle is stored.\<close>

definition noLibs :: "world \<Rightarrow> bool" where
  "noLibs s \<longleftrightarrow> (\<not> tmImage s \<or> \<not> tf s) \<and> loadPending s = 0 \<and> modelRef s = None"


text \<open>A model with two classes, and what one inference call may return.\<close>

definition catDog :: model where
  "catDog = \<lparr>getClassLabels = Some [''cat'', ''dog'']\<rparr>"

definition frameResult :: "prediction list" where
  "frameResult =
     [\<lparr>className = ''cat'', probability = 1 / 4\<rparr>, \<lparr>className = ''dog'', probability = 3 / 4\<rparr>]"

text \<open>
  \<open>polling\<close>: the model has loaded, the camera (tracks 0 and 1) is active, the poll effect
  has scheduled the first callback (handle 1) and the video has frame data.
  \<open>inFlight\<close>: that callback has run and is suspended at \<^verbatim>\<open>await predict\<close>.
  \<open>libsMissing\<close>: mounted on a host without \<^verbatim>\<open>window.tmImage\<close>.
  \<open>clicked\<close>: the model has loaded, the component has rendered again (the button is
  enabled), and the button has been clicked; the component has not rendered since.
  \<open>requesting\<close>: the same after the next render.
  \<open>loadFailed\<close>: the load was rejected, then the camera was started and became active.
\<close>

definition polling :: world where
  "polling =
     run [Mount, LoadSettles (LoadResolves catDog), ClickStart,
          StreamSettles (StreamGranted [0, 1]), LoadedMetadata, Commit, VideoReadyState 4]
       (initial True True)"

definition inFlight :: world where
  "inFlight = exec (Frame 1) polling"



definition libsMissing :: world where
  "libsMissing = exec Mount (initial False True)"

definition loadFailed :: world where
  "loadFailed =
     run [Mount, LoadSettles LoadRejects, ClickStart,
          StreamSettles (StreamGranted [0, 1]), LoadedMetadata, Commit, VideoReadyState 4]
       (initial True True)"

section \<open>Evaluating the model\<close>

lemmas op_defs = loadModel_def loadModel_resume_def startWebcam_def startWebcam_stream_def
  startWebcam_metadata_def scheduleLoop_def canPredict_def predictLoop_def predictLoop_resume_def
  pollEffect_def pollCleanup_def trackCleanup_def teardown_def requestAnimationFrame_def
  cancelAnimationFrame_def getUserMedia_def isMounted_def

lemmas result_splits = if_splits option.splits loadResult.splits mediaResult.splits
  predictResult.splits lifecycle.splits refTiming.splits

lemma run_Nil: "run [] s = s"
  by (simp add: run_def)

lemma run_Cons: "run (e # evs) s = run evs (exec e s)"
  by (simp add: run_def)

lemma run_snoc: "run (evs @ [e]) s = exec e (run evs s)"
  by (simp add: run_def)

lemma polling_eq:
  "polling =
     \<lparr>isLoadingModel = False, isStartingWebcam = False, webcamActive = True,
      predictions = [\<lparr>className = ''cat'', probability = 0\<rparr>, \<lparr>className = ''dog'', probability = 0\<rparr>],
      error = None,
      renderedWebcamActive = True, renderedIsStartingWebcam = False,
      videoRef = Some \<lparr>srcObject = Some [0, 1], readyState = 4\<rparr>, modelRef = Some catDog,
      requestAnimationFrameRef = 1,
      tmImage = True, tf = True,
      rafQueue = [1], rafLast = 1,
      getUserMediaCalls = 1, predictCalls = 0, stoppedTracks = [],
      loadPending = 0, streamPending = 0, metadataPending = 0, predictPending = 0,
      lifecycle = Mounted True\<rparr>"
  by (simp add: polling_def run_Cons run_Nil initial_def op_defs catDog_def)

lemma inFlight_eq:
  "inFlight = polling\<lparr>rafQueue := [], predictCalls := 1, predictPending := 1\<rparr>"
  by (simp add: inFlight_def polling_eq op_defs)



lemma libsMissing_eq:
  "libsMissing =
     (initial False True)
       \<lparr>videoRef := Some \<lparr>srcObject = None, readyState = 0\<rparr>,
        error := Some libsMissingMessage, isLoadingModel := False, lifecycle := Mounted False\<rparr>"
  by (simp add: libsMissing_def initial_def op_defs)

lemma loadFailed_eq:
  "loadFailed =
     \<lparr>isLoadingModel = False, isStartingWebcam = False, webcamActive = True,
      predictions = [], error = None,
      renderedWebcamActive = True, renderedIsStartingWebcam = False,
      videoRef = Some \<lparr>srcObject = Some [0, 1], readyState = 4\<rparr>, modelRef = None,
      requestAnimationFrameRef = 0,
      tmImage = True, tf = True,
      rafQueue = [], rafLast = 0,
      getUserMediaCalls = 1, predictCalls = 0, stoppedTracks = [],
      loadPending = 0, streamPending = 0, metadataPending = 0, predictPending = 0,
      lifecycle = Mounted True\<rparr>"
  by (simp add: loadFailed_def run_Cons run_Nil initial_def op_defs)

section \<open>Leading-class selection: the last maximum wins\<close>

lemma foldl_pick_last_max:
  "\<exists>pre post. a # ps = pre @ foldl pick a ps # post
     \<and> (\<forall>p \<in> set pre. probability p \<le> probability (foldl pick a ps))
     \<and> (\<forall>p \<in> set post. probability p < probability (foldl pick a ps))"
proof (induction ps rule: rev_induct)
  case Nil
  have "[a] = [] @ a # []" by simp
  then show ?case by (metis empty_iff empty_set foldl_Nil)
next
  case (snoc x xs)
  let ?m = "foldl pick a xs"
  from snoc obtain pre post where split: "a # xs = pre @ ?m # post"
    and before: "\<forall>p \<in> set pre. probability p \<le> probability ?m"
    and after: "\<forall>p \<in> set post. probability p < probability ?m"
    by blast
  show ?case
  proof (cases "probability ?m > probability x")
    case True
    then have res: "foldl pick a (xs @ [x]) = ?m"
      by (simp add: pick_def)
    have "a # xs @ [x] = pre @ ?m # (post @ [x])"
      using split by (metis append_Cons append_assoc)
    moreover have "\<forall>p \<in> set (post @ [x]). probability p < probability ?m"
      using after True by simp
    ultimately show ?thesis
      unfolding res using before by blast
  next
    case False
    then have res: "foldl pick a (xs @ [x]) = x"
      by (simp add: pick_def)
    have le: "\<forall>p \<in> set (a # xs). probability p \<le> probability x"
    proof
      fix p assume "p \<in> set (a # xs)"
      then have "p \<in> set pre \<or> p = ?m \<or> p \<in> set post"
        unfolding split by auto
      then have "probability p \<le> probability ?m"
        using before after by fastforce
      then show "probability p \<le> probability x"
        using False by simp
    qed
    have "a # xs @ [x] = (a # xs) @ x # []"
      by simp
    then show ?thesis
      unfolding res using le by (metis empty_iff empty_set)
  qed
qed

text \<open>Either every entry is less probable than the initial value of the fold, which
  is then the result, or the result is the last entry of greatest probability.\<close>

lemma topPrediction_split:
  "(topPrediction ps = seed \<and> (\<forall>p \<in> set ps. probability p < 0))
   \<or> (\<exists>pre post. ps = pre @ topPrediction ps # post
       \<and> (\<forall>p \<in> set pre. probability p \<le> probability (topPrediction ps))
       \<and> (\<forall>p \<in> set post. probability p < probability (topPrediction ps)))"
proof -
  let ?m = "topPrediction ps"
  obtain pre post where split: "seed # ps = pre @ ?m # post"
    and before: "\<forall>p \<in> set pre. probability p \<le> probability ?m"
    and after: "\<forall>p \<in> set post. probability p < probability ?m"
    using foldl_pick_last_max [of seed ps] unfolding topPrediction_def by blast
  show ?thesis
  proof (cases pre)
    case Nil
    from split have "seed # ps = ?m # post"
      unfolding Nil append_Nil .
    then have "?m = seed" and "post = ps"
      by (rule list.inject [THEN iffD1, THEN conjunct1, symmetric],
          rule list.inject [THEN iffD1, THEN conjunct2, symmetric])
    with after show ?thesis
      by (simp add: seed_def)
  next
    case (Cons s pre')
    with split have "ps = pre' @ ?m # post" by simp
    moreover have "\<forall>p \<in> set pre'. probability p \<le> probability ?m"
      using before Cons by simp
    ultimately show ?thesis using after by blast
  qed
qed

text \<open>
  C1, as the code has it. For every non-empty prediction list whose probabilities are
  not negative, \<open>topPrediction\<close> is an entry of the list with the greatest probability,
  and among the entries with that probability it is the last one in list order: every
  entry before it is at most as probable, every entry after it is strictly less
  probable. For the list [(A,0.3),(B,0.7),(C,0.7)] the leading class is C. For the
  empty list the result is the initial value of the fold.
\<close>

theorem topPrediction_last_max:
  assumes "ps \<noteq> []" and "\<forall>p \<in> set ps. 0 \<le> probability p"
  shows "(\<exists>pre post. ps = pre @ topPrediction ps # post
       \<and> (\<forall>p \<in> set pre. probability p \<le> probability (topPrediction ps))
       \<and> (\<forall>p \<in> set post. probability p < probability (topPrediction ps)))
     \<and> className (topPrediction
          [\<lparr>className = ''A'', probability = 3 / 10\<rparr>,
           \<lparr>className = ''B'', probability = 7 / 10\<rparr>,
           \<lparr>className = ''C'', probability = 7 / 10\<rparr>]) = ''C''
     \<and> topPrediction [] = \<lparr>className = '''', probability = 0\<rparr>"
proof (intro conjI)
  obtain p where "p \<in> set ps" and "\<not> probability p < 0"
    using assms by (cases ps) (auto simp: not_less)
  then have "\<not> (\<forall>p \<in> set ps. probability p < 0)"
    by blast
  then show "\<exists>pre post. ps = pre @ topPrediction ps # post
       \<and> (\<forall>p \<in> set pre. probability p \<le> probability (topPrediction ps))
       \<and> (\<forall>p \<in> set post. probability p < probability (topPrediction ps))"
    using topPrediction_split [of ps] by blast
next
  show "className (topPrediction
          [\<lparr>className = ''A'', probability = 3 / 10\<rparr>,
           \<lparr>className = ''B'', probability = 7 / 10\<rparr>,
           \<lparr>className = ''C'', probability = 7 / 10\<rparr>]) = ''C''"
    by (simp add: topPrediction_def pick_def seed_def)
next
  show "topPrediction [] = \<lparr>className = '''', probability = 0\<rparr>"
    by (simp add: topPrediction_def seed_def)
qed

theorem topPrediction_last_max_witness:
  "[\<lparr>className = ''A'', probability = 1 / 2\<rparr>, \<lparr>className = ''B'', probability = 1 / 2\<rparr>] \<noteq> []
   \<and> list_all (\<lambda>p. 0 \<le> probability p)
         [\<lparr>className = ''A'', probability = 1 / 2\<rparr>, \<lparr>className = ''B'', probability = 1 / 2\<rparr>]
   \<and> topPrediction [\<lparr>className = ''A'', probability = 1 / 2\<rparr>, \<lparr>className = ''B'', probability = 1 / 2\<rparr>]
       = \<lparr>className = ''B'', probability = 1 / 2\<rparr>
   \<and> (\<exists>pre post.
         [\<lparr>className = ''A'', probability = 1 / 2\<rparr>, \<lparr>className = ''B'', probability = 1 / 2\<rparr>]
           = pre @ \<lparr>className = ''B'', probability = 1 / 2\<rparr> # post
         \<and> (\<forall>p \<in> set pre. probability p \<le> 1 / 2)
         \<and> (\<forall>p \<in> set post. probability p < 1 / 2))"
  using topPrediction_last_max
    [of "[\<lparr>className = ''A'', probability = 1 / 2\<rparr>, \<lparr>className = ''B'', probability = 1 / 2\<rparr>]"]
  by (simp add: topPrediction_def pick_def seed_def)

text \<open>
  C1, as the specification states it, fails on its own example: ties go to the last
  entry, so the leading class of [(A,0.3),(B,0.7),(C,0.7)] is C and not B.
\<close>

theorem topPrediction_first_max_counterexample:
  "topPrediction
     [\<lparr>className = ''A'', probability = 3 / 10\<rparr>,
      \<lparr>className = ''B'', probability = 7 / 10\<rparr>,
      \<lparr>className = ''C'', probability = 7 / 10\<rparr>] = \<lparr>className = ''C'', probability = 7 / 10\<rparr>
   \<and> className (topPrediction
     [\<lparr>className = ''A'', probability = 3 / 10\<rparr>,
      \<lparr>className = ''B'', probability = 7 / 10\<rparr>,
      \<lparr>className = ''C'', probability = 7 / 10\<rparr>]) \<noteq> ''B''"
  by (simp add: topPrediction_def pick_def seed_def)

section \<open>The per-frame loop\<close>

text \<open>
  C2, as the code has it. When a scheduled callback runs and the inference call is
  skipped (no handle, no video element, or too little frame data), the loop schedules
  itself again at once and records the new handle. When the inference call is made,
  the callback is suspended, and when the call succeeds the result is published and
  the loop schedules itself again. When the inference call fails, nothing is
  scheduled: the \<^verbatim>\<open>await\<close> is not inside a \<^verbatim>\<open>try\<close>. A callback that has been canceled
  does not run.
\<close>

theorem predictLoop_reschedules:
  "(h \<in> set (rafQueue s) \<and> \<not> canPredict s \<longrightarrow>
       rafQueue (exec (Frame h) s) = removeAll h (rafQueue s) @ [Suc (rafLast s)]
       \<and> requestAnimationFrameRef (exec (Frame h) s) = Suc (rafLast s)
       \<and> predictCalls (exec (Frame h) s) = predictCalls s)
   \<and> (h \<in> set (rafQueue s) \<and> canPredict s \<longrightarrow>
       rafQueue (exec (Frame h) s) = removeAll h (rafQueue s)
       \<and> predictCalls (exec (Frame h) s) = Suc (predictCalls s)
       \<and> predictPending (exec (Frame h) s) = Suc (predictPending s))
   \<and> (0 < predictPending s \<longrightarrow>
       rafQueue (exec (PredictSettles (PredictResolves r)) s) = rafQueue s @ [Suc (rafLast s)]
       \<and> requestAnimationFrameRef (exec (PredictSettles (PredictResolves r)) s) = Suc (rafLast s)
       \<and> predictions (exec (PredictSettles (PredictResolves r)) s) = r)
   \<and> rafQueue (exec (PredictSettles PredictRejects) s) = rafQueue s
   \<and> h \<notin> set (rafQueue (cancelAnimationFrame h s))
   \<and> exec (Frame h) (cancelAnimationFrame h s) = cancelAnimationFrame h s"
proof (intro conjI impI)
  assume skip: "h \<in> set (rafQueue s) \<and> \<not> canPredict s"
  then have "\<not> canPredict (s\<lparr>rafQueue := removeAll h (rafQueue s)\<rparr>)"
    by (simp add: canPredict_def)
  with skip have "exec (Frame h) s = scheduleLoop (s\<lparr>rafQueue := removeAll h (rafQueue s)\<rparr>)"
    by (simp add: predictLoop_def)
  then show "rafQueue (exec (Frame h) s) = removeAll h (rafQueue s) @ [Suc (rafLast s)]"
    and "requestAnimationFrameRef (exec (Frame h) s) = Suc (rafLast s)"
    and "predictCalls (exec (Frame h) s) = predictCalls s"
    by (simp_all add: scheduleLoop_def requestAnimationFrame_def)
next
  assume call: "h \<in> set (rafQueue s) \<and> canPredict s"
  then have "canPredict (s\<lparr>rafQueue := removeAll h (rafQueue s)\<rparr>)"
    by (simp add: canPredict_def)
  with call show "rafQueue (exec (Frame h) s) = removeAll h (rafQueue s)"
    and "predictCalls (exec (Frame h) s) = Suc (predictCalls s)"
    and "predictPending (exec (Frame h) s) = Suc (predictPending s)"
    by (simp_all add: predictLoop_def)
next
  assume "0 < predictPending s"
  then have "exec (PredictSettles (PredictResolves r)) s
      = scheduleLoop (s\<lparr>predictPending := predictPending s - 1, predictions := r\<rparr>)"
    by (simp add: predictLoop_resume_def)
  then show "rafQueue (exec (PredictSettles (PredictResolves r)) s) = rafQueue s @ [Suc (rafLast s)]"
    and "requestAnimationFrameRef (exec (PredictSettles (PredictResolves r)) s) = Suc (rafLast s)"
    and "predictions (exec (PredictSettles (PredictResolves r)) s) = r"
    by (simp_all add: scheduleLoop_def requestAnimationFrame_def)
next
  show "rafQueue (exec (PredictSettles PredictRejects) s) = rafQueue s"
    by (simp add: predictLoop_resume_def)
  show "h \<notin> set (rafQueue (cancelAnimationFrame h s))"
    by (simp add: cancelAnimationFrame_def)
  then show "exec (Frame h) (cancelAnimationFrame h s) = cancelAnimationFrame h s"
    by simp
qed

theorem predictLoop_reschedules_witness:
  "rafQueue polling = [1] \<and> canPredict polling
   \<and> predictPending (exec (Frame 1) polling) = 1
   \<and> rafQueue (run [Frame 1, PredictSettles (PredictResolves frameResult)] polling) = [2]
   \<and> predictions (run [Frame 1, PredictSettles (PredictResolves frameResult)] polling) = frameResult
   \<and> \<not> canPredict (exec (VideoReadyState 2) polling)
   \<and> rafQueue (run [VideoReadyState 2, Frame 1] polling) = [2]
   \<and> predictCalls (run [VideoReadyState 2, Frame 1] polling) = 0
   \<and> rafQueue (cancelAnimationFrame 1 polling) = []"
  using predictLoop_reschedules [of 1 polling frameResult]
    predictLoop_reschedules [of 1 "exec (Frame 1) polling" frameResult]
    predictLoop_reschedules [of 1 "exec (VideoReadyState 2) polling" frameResult]
  by (simp add: polling_eq op_defs run_Cons run_Nil)

text \<open>
  C2, as the specification states it, fails when the inference call fails: in
  \<open>inFlight\<close> one call is awaited and no callback is scheduled; after its rejection no
  callback is scheduled and no call is awaited, so the loop has stopped.
\<close>

theorem predictLoop_rejection_counterexample:
  "predictPending inFlight = 1 \<and> rafQueue inFlight = []
   \<and> rafQueue (exec (PredictSettles PredictRejects) inFlight) = []
   \<and> predictPending (exec (PredictSettles PredictRejects) inFlight) = 0"
  by (simp add: inFlight_eq polling_eq op_defs)

section \<open>Teardown\<close>

text \<open>The two cleanups as functions: when the ref still holds the video element while
  they run and the only scheduled callback is the one whose handle is stored, they stop
  the tracks of the stream and leave no callback scheduled.\<close>

lemma teardown_quiescent:
  assumes "videoRef s = Some v" and "srcObject v = Some stream"
    and "set (rafQueue s) \<subseteq> {requestAnimationFrameRef s}" and "0 \<notin> set (rafQueue s)"
  shows "stoppedTracks (teardown s) = stoppedTracks s @ stream \<and> rafQueue (teardown s) = []"
proof -
  have gone: "removeAll (requestAnimationFrameRef s) (rafQueue s) = []"
    using assms(3) by (auto simp: removeAll_filter_not_eq filter_empty_conv)
  have none: "requestAnimationFrameRef s = 0 \<Longrightarrow> rafQueue s = []"
    using assms(3,4) by (cases "rafQueue s") auto
  show ?thesis
    using assms(1,2) gone none by (auto simp: op_defs)
qed

lemma inFlight_unmounted:
  "exec (Unmount RefClearedFirst) inFlight
     = inFlight\<lparr>videoRef := None, lifecycle := Unmounted\<rparr>"
  "exec (Unmount RefClearedLast) inFlight
     = inFlight\<lparr>videoRef := None, stoppedTracks := [0, 1], lifecycle := Unmounted\<rparr>"
  by (simp_all add: inFlight_eq polling_eq op_defs)

text \<open>
  C3 (the pending callback is canceled, so that nothing is scheduled after teardown,
  and every track is stopped) does not hold when teardown comes while an inference
  call is awaited. In \<open>inFlight\<close> the camera is active, one call is awaited, and the
  callback with handle 1 has already run, so the cancellation in the cleanup removes
  nothing. In either order of unmounting:
  \<^item> right after the unmount no callback is scheduled and the ref is null;
  \<^item> when the awaited call resolves, line 84 schedules handle 2;
  \<^item> callback 2 finds the ref null, makes no inference call (the count stays 1) and
    schedules handle 3; callback 3 schedules handle 4: the loop goes on.
  When the ref is cleared before the cleanups run, no track is stopped; when it is
  cleared after them, tracks 0 and 1 are.
\<close>

theorem teardown_with_predict_in_flight:
  "webcamActive inFlight \<and> predictPending inFlight = 1 \<and> predictCalls inFlight = 1
   \<and> rafQueue inFlight = [] \<and> requestAnimationFrameRef inFlight = 1
   \<and> rafQueue (exec (Unmount RefClearedFirst) inFlight) = []
   \<and> videoRef (exec (Unmount RefClearedFirst) inFlight) = None
   \<and> stoppedTracks (exec (Unmount RefClearedFirst) inFlight) = []
   \<and> rafQueue (run [Unmount RefClearedFirst, PredictSettles (PredictResolves frameResult)]
        inFlight) = [2]
   \<and> rafQueue (run [Unmount RefClearedFirst, PredictSettles (PredictResolves frameResult),
        Frame 2] inFlight) = [3]
   \<and> predictCalls (run [Unmount RefClearedFirst, PredictSettles (PredictResolves frameResult),
        Frame 2] inFlight) = 1
   \<and> rafQueue (run [Unmount RefClearedFirst, PredictSettles (PredictResolves frameResult),
        Frame 2, Frame 3] inFlight) = [4]
   \<and> rafQueue (exec (Unmount RefClearedLast) inFlight) = []
   \<and> videoRef (exec (Unmount RefClearedLast) inFlight) = None
   \<and> stoppedTracks (exec (Unmount RefClearedLast) inFlight) = [0, 1]
   \<and> rafQueue (run [Unmount RefClearedLast, PredictSettles (PredictResolves frameResult)]
        inFlight) = [2]
   \<and> rafQueue (run [Unmount RefClearedLast, PredictSettles (PredictResolves frameResult),
        Frame 2] inFlight) = [3]
   \<and> predictCalls (run [Unmount RefClearedLast, PredictSettles (PredictResolves frameResult),
        Frame 2] inFlight) = 1
   \<and> rafQueue (run [Unmount RefClearedLast, PredictSettles (PredictResolves frameResult),
        Frame 2, Frame 3] inFlight) = [4]"
proof -
  have start: "webcamActive inFlight" "predictPending inFlight = 1" "predictCalls inFlight = 1"
    "rafQueue inFlight = []" "requestAnimationFrameRef inFlight = 1"
    by (simp_all add: inFlight_eq polling_eq)
  have first: "rafQueue (exec (Unmount RefClearedFirst) inFlight) = []"
    "videoRef (exec (Unmount RefClearedFirst) inFlight) = None"
    "stoppedTracks (exec (Unmount RefClearedFirst) inFlight) = []"
    "rafQueue (run [Unmount RefClearedFirst, PredictSettles (PredictResolves frameResult)]
        inFlight) = [2]"
    "rafQueue (run [Unmount RefClearedFirst, PredictSettles (PredictResolves frameResult),
        Frame 2] inFlight) = [3]"
    "predictCalls (run [Unmount RefClearedFirst, PredictSettles (PredictResolves frameResult),
        Frame 2] inFlight) = 1"
    "rafQueue (run [Unmount RefClearedFirst, PredictSettles (PredictResolves frameResult),
        Frame 2, Frame 3] inFlight) = [4]"
    unfolding run_Cons run_Nil inFlight_unmounted
    by (simp_all add: inFlight_eq polling_eq op_defs)
  have last: "rafQueue (exec (Unmount RefClearedLast) inFlight) = []"
    "videoRef (exec (Unmount RefClearedLast) inFlight) = None"
    "stoppedTracks (exec (Unmount RefClearedLast) inFlight) = [0, 1]"
    "rafQueue (run [Unmount RefClearedLast, PredictSettles (PredictResolves frameResult)]
        inFlight) = [2]"
    "rafQueue (run [Unmount RefClearedLast, PredictSettles (PredictResolves frameResult),
        Frame 2] inFlight) = [3]"
    "predictCalls (run [Unmount RefClearedLast, PredictSettles (PredictResolves frameResult),
        Frame 2] inFlight) = 1"
    "rafQueue (run [Unmount RefClearedLast, PredictSettles (PredictResolves frameResult),
        Frame 2, Frame 3] inFlight) = [4]"
    unfolding run_Cons run_Nil inFlight_unmounted
    by (simp_all add: inFlight_eq polling_eq op_defs)
  show ?thesis
    by (intro conjI start first last)
qed

section \<open>Rendering\<close>

text \<open>With distinct class names, a prediction above the threshold that carries the
  name of the selected entry is the selected entry.\<close>

lemma leading_is_selected:
  assumes dist: "distinct (map className ps)" and i: "i < length ps"
    and big: "probability (ps ! i) > 6 / 10"
    and name: "className (ps ! i) = className (topPrediction ps)"
  shows "ps ! i = topPrediction ps"
proof -
  have "ps ! i \<in> set ps" and "\<not> probability (ps ! i) < 0"
    using i big by simp_all
  then have "\<not> (\<forall>p \<in> set ps. probability p < 0)"
    by blast
  then have "topPrediction ps \<in> set ps"
    using topPrediction_split [of ps] by (metis in_set_conv_decomp)
  then obtain j where j: "j < length ps" "ps ! j = topPrediction ps"
    by (auto simp: in_set_conv_nth)
  then have "map className ps ! i = map className ps ! j"
    using i name by simp
  then have "i = j"
    using dist i j(1) nth_eq_iff_index_eq [of "map className ps" i j] by simp
  then show ?thesis using j(2) by simp
qed

text \<open>
  C4. The rendered list has one bar per prediction, and the bar of a prediction is
  drawn as leading exactly when its probability is strictly greater than 0.6 and its
  class name is that of the selected leading class; when the class names of the list
  are distinct, that is exactly when its probability is strictly greater than 0.6 and
  it is the selected entry. With probability 0.60 the leading class is not
  highlighted, with 0.61 it is. The comparison is on the probability and not on the
  rounded percentage: of two bars that both read 60, the one with probability 0.604 is
  highlighted and the one with 0.596 is not.
\<close>

theorem leading_highlight_threshold:
  "length (renderBars fl ps) = length ps
   \<and> (\<forall>i < length ps. leading (renderBars fl ps ! i) \<longleftrightarrow>
         probability (ps ! i) > 6 / 10 \<and> className (ps ! i) = className (topPrediction ps))
   \<and> (distinct (map className ps) \<longrightarrow>
       (\<forall>i < length ps. leading (renderBars fl ps ! i) \<longleftrightarrow>
         probability (ps ! i) > 6 / 10 \<and> ps ! i = topPrediction ps))
   \<and> map leading (renderBars fl [\<lparr>className = ''A'', probability = 40 / 100\<rparr>,
                                  \<lparr>className = ''B'', probability = 60 / 100\<rparr>]) = [False, False]
   \<and> map leading (renderBars fl [\<lparr>className = ''A'', probability = 39 / 100\<rparr>,
                                  \<lparr>className = ''B'', probability = 61 / 100\<rparr>]) = [False, True]
   \<and> renderBars (\<lambda>x. x) [\<lparr>className = ''A'', probability = 396 / 1000\<rparr>,
                            \<lparr>className = ''B'', probability = 604 / 1000\<rparr>]
       = [\<lparr>label = ''A'', percent = Some ''40'', leading = False\<rparr>,
          \<lparr>label = ''B'', percent = Some ''60'', leading = True\<rparr>]
   \<and> renderBars (\<lambda>x. x) [\<lparr>className = ''A'', probability = 404 / 1000\<rparr>,
                            \<lparr>className = ''B'', probability = 596 / 1000\<rparr>]
       = [\<lparr>label = ''A'', percent = Some ''40'', leading = False\<rparr>,
          \<lparr>label = ''B'', percent = Some ''60'', leading = False\<rparr>]"
proof -
  have bar: "leading (renderBars fl ps ! i) \<longleftrightarrow>
      probability (ps ! i) > 6 / 10 \<and> className (ps ! i) = className (topPrediction ps)"
    if "i < length ps" for i
  proof -
    from that
    have "renderBars fl ps ! i = PredictionBar fl (ps ! i) (isTopPrediction ps (ps ! i))"
      by (simp add: renderBars_def)
    then show ?thesis
      by (simp add: PredictionBar_def isTopPrediction_def)
  qed
  have entry: "leading (renderBars fl ps ! i) \<longleftrightarrow>
      probability (ps ! i) > 6 / 10 \<and> ps ! i = topPrediction ps"
    if "distinct (map className ps)" and "i < length ps" for i
    using that bar [of i] leading_is_selected [of ps i] by auto
  have "length (renderBars fl ps) = length ps"
    by (simp add: renderBars_def)
  moreover have
    "map leading (renderBars fl [\<lparr>className = ''A'', probability = 40 / 100\<rparr>,
                                 \<lparr>className = ''B'', probability = 60 / 100\<rparr>]) = [False, False]"
    "map leading (renderBars fl [\<lparr>className = ''A'', probability = 39 / 100\<rparr>,
                                 \<lparr>className = ''B'', probability = 61 / 100\<rparr>]) = [False, True]"
    by (simp_all add: renderBars_def PredictionBar_def isTopPrediction_def topPrediction_def
        pick_def seed_def)
  moreover have
    "renderBars (\<lambda>x. x) [\<lparr>className = ''A'', probability = 396 / 1000\<rparr>,
                           \<lparr>className = ''B'', probability = 604 / 1000\<rparr>]
       = [\<lparr>label = ''A'', percent = Some ''40'', leading = False\<rparr>,
          \<lparr>label = ''B'', percent = Some ''60'', leading = True\<rparr>]"
    "renderBars (\<lambda>x. x) [\<lparr>className = ''A'', probability = 404 / 1000\<rparr>,
                           \<lparr>className = ''B'', probability = 596 / 1000\<rparr>]
       = [\<lparr>label = ''A'', percent = Some ''40'', leading = False\<rparr>,
          \<lparr>label = ''B'', percent = Some ''60'', leading = False\<rparr>]"
    by (simp_all add: renderBars_def PredictionBar_def isTopPrediction_def topPrediction_def
        pick_def seed_def percentage_def toFixed0_def nearest_def digits.simps digit_def)
  ultimately show ?thesis
    using bar entry by blast
qed

theorem leading_highlight_threshold_witness:
  "(1::nat) < length [\<lparr>className = ''A'', probability = 39 / 100\<rparr>,
                      \<lparr>className = ''B'', probability = 61 / 100\<rparr>]
   \<and> distinct (map className [\<lparr>className = ''A'', probability = 39 / 100\<rparr>,
                                \<lparr>className = ''B'', probability = 61 / 100\<rparr>])
   \<and> leading (renderBars (\<lambda>x. x) [\<lparr>className = ''A'', probability = 39 / 100\<rparr>,
                                    \<lparr>className = ''B'', probability = 61 / 100\<rparr>] ! 1)
   \<and> topPrediction [\<lparr>className = ''A'', probability = 39 / 100\<rparr>,
                      \<lparr>className = ''B'', probability = 61 / 100\<rparr>]
       = \<lparr>className = ''B'', probability = 61 / 100\<rparr>
   \<and> \<not> leading (renderBars (\<lambda>x. x) [\<lparr>className = ''A'', probability = 39 / 100\<rparr>,
                                      \<lparr>className = ''B'', probability = 61 / 100\<rparr>] ! 0)"
  using leading_highlight_threshold
    [of "\<lambda>x. x" "[\<lparr>className = ''A'', probability = 39 / 100\<rparr>,
                     \<lparr>className = ''B'', probability = 61 / 100\<rparr>]"]
  by (simp add: topPrediction_def pick_def seed_def)

lemma nearest_bounds:
  assumes "0 \<le> x"
  shows "x - 1 / 2 < real (nearest x)" and "real (nearest x) \<le> x + 1 / 2"
proof -
  have "0 \<le> \<lfloor>x + 1 / 2\<rfloor>" using assms by simp
  then have eq: "real (nearest x) = of_int \<lfloor>x + 1 / 2\<rfloor>"
    by (simp add: nearest_def)
  show "x - 1 / 2 < real (nearest x)" unfolding eq by linarith
  show "real (nearest x) \<le> x + 1 / 2" unfolding eq by linarith
qed

lemma nearest_le:
  assumes "0 \<le> x" and "x \<le> real k"
  shows "nearest x \<le> k"
proof -
  have "\<lfloor>x + 1 / 2\<rfloor> \<le> int k" using assms by linarith
  then show ?thesis by (simp add: nearest_def)
qed

lemma digit_cases:
  assumes "d < 10"
  shows "d = 0 \<or> d = 1 \<or> d = 2 \<or> d = 3 \<or> d = 4 \<or> d = 5 \<or> d = 6 \<or> d = 7 \<or> d = 8 \<or> d = (9::nat)"
  using assms by arith

lemma digit_props:
  assumes "d < 10"
  shows "digit d \<in> set ''0123456789''" and "digitValue (digit d) = d"
    and "digit d = CHR ''0'' \<longleftrightarrow> d = 0"
  using digit_cases [OF assms] by (auto simp: digit_def digitValue_def)

lemma char_digit:
  assumes "c \<in> set ''0123456789''"
  shows "digitValue c < 10" and "digit (digitValue c) = c"
  using assms by (auto simp: digit_def digitValue_def)

lemma decimalValue_snoc: "decimalValue (cs @ [c]) = 10 * decimalValue cs + digitValue c"
  by (simp add: decimalValue_def)

text \<open>The text that \<open>digits\<close> produces is a numeral, and its value is the number.\<close>

lemma decimalValue_digits: "decimalValue (digits n) = n"
proof (induction n rule: digits.induct)
  case (1 n)
  show ?case
  proof (cases "n < 10")
    case True
    then show ?thesis
      by (subst digits.simps) (simp add: decimalValue_def digit_props)
  next
    case False
    then have "decimalValue (digits (n div 10)) = n div 10"
      using 1 by simp
    with False show ?thesis
      by (subst digits.simps) (simp add: decimalValue_snoc digit_props)
  qed
qed

lemma digits_not_Nil: "digits n \<noteq> []"
  by (subst digits.simps) simp

lemma digits_chars: "list_all (\<lambda>c. c \<in> set ''0123456789'') (digits n)"
proof (induction n rule: digits.induct)
  case (1 n)
  show ?case
  proof (cases "n < 10")
    case True
    then show ?thesis
      using digit_props(1) [of n] by (subst digits.simps) simp
  next
    case False
    then have "list_all (\<lambda>c. c \<in> set ''0123456789'') (digits (n div 10))"
      using 1 by simp
    with False show ?thesis
      using digit_props(1) [of "n mod 10"] by (subst digits.simps) simp
  qed
qed

lemma digits_leading: "hd (digits n) = CHR ''0'' \<Longrightarrow> n = 0"
proof (induction n rule: digits.induct)
  case (1 n)
  show ?case
  proof (cases "n < 10")
    case True
    with 1(2) show ?thesis
      using digit_props(3) [of n] by (subst (asm) digits.simps) simp
  next
    case False
    with 1(2) have "hd (digits (n div 10)) = CHR ''0''"
      by (subst (asm) digits.simps) (simp add: digits_not_Nil)
    with 1(1) False have "n div 10 = 0" by simp
    with False show ?thesis by simp
  qed
qed

lemma digits_zero: "digits 0 = ''0''"
  by (simp add: digits.simps digit_def)

lemma isNumeral_digits: "isNumeral (digits n)"
  unfolding isNumeral_def
  using digits_not_Nil digits_chars digits_leading digits_zero by metis

lemma length_digits: "n \<le> 999 \<Longrightarrow> length (digits n) \<le> 3"
  by (simp add: digits.simps [of n] digits.simps [of "n div 10"] digits.simps [of "n div 10 div 10"])

text \<open>Conversely a numeral is the text that \<open>digits\<close> produces for its value: the numeral
  of a number is unique.\<close>

lemma decimalValue_pos:
  assumes "cs \<noteq> []" and "hd cs \<noteq> CHR ''0''" and "list_all (\<lambda>c. c \<in> set ''0123456789'') cs"
  shows "0 < decimalValue cs"
  using assms
proof (induction cs rule: rev_induct)
  case Nil
  then show ?case by simp
next
  case (snoc c cs)
  show ?case
  proof (cases "cs = []")
    case True
    with snoc.prems show ?thesis
      by (auto simp: decimalValue_def digitValue_def)
  next
    case False
    with snoc have "0 < decimalValue cs" by simp
    then show ?thesis by (simp add: decimalValue_snoc)
  qed
qed

lemma digits_decimalValue:
  assumes "isNumeral cs"
  shows "digits (decimalValue cs) = cs"
  using assms
proof (induction cs rule: rev_induct)
  case Nil
  then show ?case by (simp add: isNumeral_def)
next
  case (snoc c cs)
  from snoc.prems have c: "c \<in> set ''0123456789''"
    and all: "list_all (\<lambda>c. c \<in> set ''0123456789'') cs"
    by (simp_all add: isNumeral_def)
  show ?case
  proof (cases "cs = []")
    case True
    then show ?thesis
      using char_digit [OF c]
      by (subst digits.simps) (simp add: decimalValue_def)
  next
    case False
    with snoc.prems have lead: "hd cs \<noteq> CHR ''0''"
      by (auto simp: isNumeral_def)
    with False all have "isNumeral cs"
      by (simp add: isNumeral_def)
    then have ih: "digits (decimalValue cs) = cs"
      by (rule snoc.IH)
    have pos: "0 < decimalValue cs"
      using False lead all by (rule decimalValue_pos)
    have split: "(10 * decimalValue cs + digitValue c) div 10 = decimalValue cs"
      "digitValue c mod 10 = digitValue c"
      using char_digit(1) [OF c] by simp_all
    have "\<not> 10 * decimalValue cs + digitValue c < 10"
      using pos by simp
    then show ?thesis
      unfolding decimalValue_snoc
      by (subst digits.simps) (simp add: split ih char_digit(2) [OF c])
  qed
qed

text \<open>
  C5. Rounding to a double is monotone and leaves the doubles 0 and 100 as they are;
  for any such rounding \<open>fl\<close> of the product, and every probability in [0,1], the
  percentage text is the decimal numeral (digits only, at most three, no leading zero)
  of a whole number \<open>n\<close> between 0 and 100, and \<open>n\<close> is the integer nearest to the
  product, the upper one when the product lies halfway between two integers
  (\<open>product - 1/2 < n \<le> product + 1/2\<close>).
\<close>

theorem percentage_round_half_up:
  assumes mono: "\<And>x y. x \<le> y \<Longrightarrow> fl x \<le> fl y" and fl0: "fl 0 = 0" and fl100: "fl 100 = 100"
    and lo: "0 \<le> probability p" and hi: "probability p \<le> 1"
  shows "\<exists>str n. percentage fl p = Some str \<and> str = digits n
            \<and> isNumeral str \<and> decimalValue str = n \<and> length str \<le> 3
            \<and> n \<le> 100
            \<and> fl (probability p * 100) - 1 / 2 < real n
            \<and> real n \<le> fl (probability p * 100) + 1 / 2"
proof -
  let ?x = "fl (probability p * 100)"
  let ?n = "nearest ?x"
  have "fl 0 \<le> ?x" using lo by (intro mono) simp
  then have x0: "0 \<le> ?x" by (simp add: fl0)
  have "?x \<le> fl 100" using hi by (intro mono) simp
  then have x100: "?x \<le> 100" by (simp add: fl100)
  have small: "\<not> 10 ^ 21 \<le> \<bar>?x\<bar>" using x0 x100 by simp
  have shown: "percentage fl p = Some (digits ?n)"
    using x0 small by (simp add: percentage_def toFixed0_def)
  have range: "?n \<le> 100"
    using nearest_le [of ?x 100] x0 x100 by simp
  then have short: "length (digits ?n) \<le> 3"
    by (intro length_digits) simp
  have numeral: "isNumeral (digits ?n)" and "value": "decimalValue (digits ?n) = ?n"
    by (rule isNumeral_digits, rule decimalValue_digits)
  from shown numeral "value" short range nearest_bounds [OF x0] show ?thesis
    by blast
qed

text \<open>With the exact product: 2.5 is shown as 3 (halves go up), 99.9 as 100 and 0.4
  as 0 (nearest, not truncated), 57 as 57 and 10 as 10.\<close>

theorem percentage_round_half_up_witness:
  "(0::real) \<le> 25 / 1000 \<and> (25::real) / 1000 \<le> 1
   \<and> percentage (\<lambda>x. x) \<lparr>className = ''A'', probability = 25 / 1000\<rparr> = Some ''3''
   \<and> percentage (\<lambda>x. x) \<lparr>className = ''A'', probability = 999 / 1000\<rparr> = Some ''100''
   \<and> percentage (\<lambda>x. x) \<lparr>className = ''A'', probability = 4 / 1000\<rparr> = Some ''0''
   \<and> percentage (\<lambda>x. x) \<lparr>className = ''A'', probability = 57 / 100\<rparr> = Some ''57''
   \<and> percentage (\<lambda>x. x) \<lparr>className = ''A'', probability = 1 / 10\<rparr> = Some ''10''
   \<and> isNumeral ''57'' \<and> decimalValue ''57'' = 57 \<and> \<not> isNumeral ''057'' \<and> \<not> isNumeral ''5a''
   \<and> (\<exists>str n. percentage (\<lambda>x. x) \<lparr>className = ''A'', probability = 25 / 1000\<rparr> = Some str
          \<and> isNumeral str \<and> decimalValue str = n \<and> length str \<le> 3
          \<and> n \<le> 100 \<and> (2::real) < real n \<and> real n \<le> 3)"
  using percentage_round_half_up [of "\<lambda>x. x" "\<lparr>className = ''A'', probability = 25 / 1000\<rparr>"]
  by (simp add: percentage_def toFixed0_def nearest_def digits.simps digit_def
      isNumeral_def decimalValue_def digitValue_def)

section \<open>Starting the camera\<close>








text \<open>
  C9. When the render of the handler shows the camera neither active nor starting (the
  call is not a no-op), \<^verbatim>\<open>startWebcam\<close> calls \<^verbatim>\<open>getUserMedia\<close> in the state in which the
  starting flag is set and the error is null; the error is null when the function
  suspends, it is still null when the stream has been granted, and it is null when the
  metadata has arrived and the camera has been marked active.
\<close>

theorem startWebcam_clears_error:
  assumes "\<not> renderedWebcamActive s" and "\<not> renderedIsStartingWebcam s"
  shows "startWebcam s = getUserMedia (s\<lparr>isStartingWebcam := True, error := None\<rparr>)
     \<and> getUserMediaCalls (startWebcam s) = Suc (getUserMediaCalls s)
     \<and> error (startWebcam s) = None
     \<and> error (startWebcam_stream (StreamGranted stream) (startWebcam s)) = None
     \<and> error (startWebcam_metadata (startWebcam_stream (StreamGranted stream) (startWebcam s))) = None"
proof -
  have call: "startWebcam s = getUserMedia (s\<lparr>isStartingWebcam := True, error := None\<rparr>)"
    using assms by (simp add: startWebcam_def)
  have requested: "getUserMediaCalls (startWebcam s) = Suc (getUserMediaCalls s)"
    and cleared: "error (startWebcam s) = None"
    unfolding call by (simp_all add: getUserMedia_def)
  have granted: "error (startWebcam_stream (StreamGranted stream) (startWebcam s)) = None"
    using cleared by (simp add: startWebcam_stream_def split: option.splits)
  then have "error (startWebcam_metadata (startWebcam_stream (StreamGranted stream) (startWebcam s))) = None"
    by (simp add: startWebcam_metadata_def)
  with call requested cleared granted show ?thesis by blast
qed

theorem startWebcam_clears_error_witness:
  "error libsMissing = Some libsMissingMessage
   \<and> \<not> renderedWebcamActive libsMissing \<and> \<not> renderedIsStartingWebcam libsMissing
   \<and> \<not> webcamActive libsMissing \<and> \<not> isStartingWebcam libsMissing
   \<and> error (startWebcam libsMissing) = None
   \<and> error (run [ClickStart, StreamSettles (StreamGranted [0, 1]), LoadedMetadata] libsMissing) = None
   \<and> webcamActive (run [ClickStart, StreamSettles (StreamGranted [0, 1]), LoadedMetadata] libsMissing)"
  using startWebcam_clears_error [of libsMissing "[0, 1]"]
  by (simp add: libsMissing_eq initial_def op_defs run_Cons run_Nil)

section \<open>Loading the model\<close>

lemma exec_noLibs: "noLibs s \<Longrightarrow> noLibs (exec e s)"
  unfolding noLibs_def
  by (cases e) (auto simp: op_defs Let_def split: result_splits)

lemma run_noLibs: "noLibs s \<Longrightarrow> noLibs (run evs s)"
  by (induction evs arbitrary: s) (simp_all add: run_Nil run_Cons exec_noLibs)

text \<open>
  C7. When \<^verbatim>\<open>window.tmImage\<close> or \<^verbatim>\<open>window.tf\<close> is missing, \<^verbatim>\<open>loadModel\<close> sets the error
  to a message that differs from the camera message (and from the message of the other
  load failures), clears the loading flag, leaves \<^verbatim>\<open>modelRef\<close> as it is and awaits
  nothing. If no handle was stored and no load was awaited before, no handle is stored
  after any sequence of later events either.
\<close>

theorem loadModel_dependency_missing:
  assumes "\<not> tmImage s \<or> \<not> tf s"
  shows "error (loadModel s) = Some libsMissingMessage
     \<and> libsMissingMessage \<noteq> cameraMessage \<and> libsMissingMessage \<noteq> modelLoadMessage
     \<and> \<not> isLoadingModel (loadModel s)
     \<and> modelRef (loadModel s) = modelRef s
     \<and> loadPending (loadModel s) = loadPending s
     \<and> (modelRef s = None \<and> loadPending s = 0 \<longrightarrow> (\<forall>evs. modelRef (run evs (loadModel s)) = None))"
proof (intro conjI impI allI)
  have fails: "loadModel s = s\<lparr>error := Some libsMissingMessage, isLoadingModel := False\<rparr>"
    using assms by (auto simp: loadModel_def)
  show "error (loadModel s) = Some libsMissingMessage" and "\<not> isLoadingModel (loadModel s)"
    and "modelRef (loadModel s) = modelRef s" and "loadPending (loadModel s) = loadPending s"
    unfolding fails by simp_all
  show "libsMissingMessage \<noteq> cameraMessage" and "libsMissingMessage \<noteq> modelLoadMessage"
    by (simp_all add: libsMissingMessage_def cameraMessage_def modelLoadMessage_def)
  show "modelRef (run evs (loadModel s)) = None" if "modelRef s = None \<and> loadPending s = 0" for evs
  proof -
    have "noLibs (loadModel s)"
      unfolding fails using assms that by (simp add: noLibs_def)
    then have "noLibs (run evs (loadModel s))" by (rule run_noLibs)
    then show ?thesis by (simp add: noLibs_def)
  qed
qed

theorem loadModel_dependency_missing_witness:
  "\<not> tmImage (initial False True)
   \<and> modelRef (initial False True) = None \<and> loadPending (initial False True) = 0
   \<and> error (loadModel (initial False True)) = Some libsMissingMessage
   \<and> \<not> isLoadingModel (loadModel (initial False True))
   \<and> modelRef (loadModel (initial False True)) = None
   \<and> modelRef (run [LoadSettles (LoadResolves catDog), ClickStart] (loadModel (initial False True))) = None"
  using loadModel_dependency_missing [of "initial False True"]
  by (simp add: initial_def)

text \<open>
  C8. When the load resolves with a handle whose class labels are \<open>L\<close>, the published
  predictions are one entry with probability 0 per label, in the order of \<open>L\<close>; the
  handle is stored and the loading flag cleared. This is the state after mounting and
  loading, before any inference call. For the labels cat, dog the list is
  [(cat,0),(dog,0)].
\<close>

theorem loadModel_initial_predictions:
  assumes "getClassLabels m = Some L"
  shows "predictions (loadModel_resume (LoadResolves m) s)
       = map (\<lambda>name. \<lparr>className = name, probability = 0\<rparr>) L
     \<and> modelRef (loadModel_resume (LoadResolves m) s) = Some m
     \<and> \<not> isLoadingModel (loadModel_resume (LoadResolves m) s)
     \<and> predictions (run [Mount, LoadSettles (LoadResolves m)] (initial True True))
       = map (\<lambda>name. \<lparr>className = name, probability = 0\<rparr>) L
     \<and> predictCalls (run [Mount, LoadSettles (LoadResolves m)] (initial True True)) = 0"
proof -
  have "run [Mount, LoadSettles (LoadResolves m)] (initial True True)
      = loadModel_resume (LoadResolves m) (exec Mount (initial True True)\<lparr>loadPending := 0\<rparr>)"
    by (simp add: run_Cons run_Nil initial_def loadModel_def pollEffect_def)
  moreover have "predictCalls (exec Mount (initial True True)) = 0"
    by (simp add: initial_def loadModel_def pollEffect_def)
  ultimately show ?thesis
    using assms by (simp add: loadModel_resume_def)
qed

theorem loadModel_initial_predictions_witness:
  "getClassLabels catDog = Some [''cat'', ''dog'']
   \<and> predictions (loadModel_resume (LoadResolves catDog) (exec Mount (initial True True)))
       = [\<lparr>className = ''cat'', probability = 0\<rparr>, \<lparr>className = ''dog'', probability = 0\<rparr>]
   \<and> predictions (run [Mount, LoadSettles (LoadResolves catDog)] (initial True True))
       = [\<lparr>className = ''cat'', probability = 0\<rparr>, \<lparr>className = ''dog'', probability = 0\<rparr>]"
  using loadModel_initial_predictions
    [of catDog "[''cat'', ''dog'']" "exec Mount (initial True True)"]
  by (simp add: catDog_def)

section \<open>Starting the poll\<close>

lemma exec_no_model:
  assumes "modelRef (exec e s) = None" and "modelRef s = None \<longrightarrow> idle s"
  shows "idle (exec e s)"
  using assms unfolding idle_def
  by (cases e) (auto simp: op_defs Let_def split: result_splits)

lemma run_no_model: "modelRef (run evs (initial a b)) = None \<longrightarrow> idle (run evs (initial a b))"
proof (induction evs rule: rev_induct)
  case Nil
  show ?case by (simp add: run_Nil initial_def idle_def)
next
  case (snoc e evs)
  show ?case
    unfolding run_snoc using exec_no_model [of e "run evs (initial a b)"] snoc by blast
qed

text \<open>
  C10. The poll effect schedules the first callback when the camera is active and a
  handle is stored, and does nothing otherwise. In every state the component can reach
  from its initial state in which no handle is stored, no callback is scheduled, no
  inference call has been made or is awaited, and the prediction list is empty,
  whether or not the camera is active.
\<close>

theorem poll_needs_camera_and_model:
  "(webcamActive s \<and> modelRef s \<noteq> None \<longrightarrow>
       rafQueue (pollEffect s) = rafQueue s @ [Suc (rafLast s)])
   \<and> (\<not> (webcamActive s \<and> modelRef s \<noteq> None) \<longrightarrow> pollEffect s = s)
   \<and> (modelRef (run evs (initial a b)) = None \<longrightarrow>
       rafQueue (run evs (initial a b)) = [] \<and> predictions (run evs (initial a b)) = []
       \<and> predictCalls (run evs (initial a b)) = 0 \<and> predictPending (run evs (initial a b)) = 0)"
proof (intro conjI impI)
  assume "webcamActive s \<and> modelRef s \<noteq> None"
  then have "pollEffect s = scheduleLoop s"
    by (simp add: pollEffect_def)
  then show "rafQueue (pollEffect s) = rafQueue s @ [Suc (rafLast s)]"
    by (simp add: scheduleLoop_def requestAnimationFrame_def)
next
  assume "\<not> (webcamActive s \<and> modelRef s \<noteq> None)"
  then show "pollEffect s = s"
    by (auto simp: pollEffect_def)
next
  assume "modelRef (run evs (initial a b)) = None"
  then have "idle (run evs (initial a b))"
    using run_no_model by blast
  then show "rafQueue (run evs (initial a b)) = []" and "predictions (run evs (initial a b)) = []"
    and "predictCalls (run evs (initial a b)) = 0" and "predictPending (run evs (initial a b)) = 0"
    by (simp_all add: idle_def)
qed

theorem poll_needs_camera_and_model_witness:
  "webcamActive loadFailed \<and> modelRef loadFailed = None
   \<and> pollEffect loadFailed = loadFailed
   \<and> rafQueue loadFailed = [] \<and> predictions loadFailed = []
   \<and> rafQueue (pollEffect polling) = [1, 2]"
  using poll_needs_camera_and_model [of loadFailed
      "[Mount, LoadSettles LoadRejects, ClickStart, StreamSettles (StreamGranted [0, 1]),
        LoadedMetadata, Commit, VideoReadyState 4]" True True]
    poll_needs_camera_and_model [of polling "[]" True True]
  by (simp add: loadFailed_eq polling_eq loadFailed_def [symmetric])

end
